theory Spec2Isabelle
  imports Main "HOL-Library.AList" "HOL-Library.Char_ord" "HOL-Library.List_Lexorder"
    "HOL-Library.Sublist"
begin

section \<open>The file system\<close>

text \<open>
  The repository stores account profiles as directory trees and switches between them by
  copying trees; every operation is a sequence of calls into Go's \<^verbatim>\<open>os\<close> and
  \<^verbatim>\<open>path/filepath\<close> packages. The model is a tree of nodes with the Linux behaviour of
  those calls written out. Permission bits, ownership, special files and hardware failures
  are not part of the model: a call fails only for the structural reasons listed in
  \<open>errno\<close>.
\<close>

datatype errno = ENOENT | ENOTDIR | EISDIR | EEXIST | ELOOP | ENOTEMPTY | EINVAL | ENAMETOOLONG

datatype node = File string | Dir "(string \<times> node) list" | Symlink string

text \<open>
  A directory is the partial map \<open>map_of es\<close> of its entry list.
  \<open>get\<close>, \<open>put\<close> and \<open>del\<close> address a node by the names on the way from the root and
  follow no symbolic link.
\<close>

fun get :: "node \<Rightarrow> string list \<Rightarrow> node option" where
  "get n [] = Some n"
| "get n (c # cs) =
     (case n of
        Dir es \<Rightarrow> (case map_of es c of None \<Rightarrow> None | Some m \<Rightarrow> get m cs)
      | _ \<Rightarrow> None)"

fun put :: "string list \<Rightarrow> node \<Rightarrow> node \<Rightarrow> node" where
  "put [] new n = new"
| "put (c # cs) new n =
     (case n of
        Dir es \<Rightarrow>
          (case map_of es c of
             None \<Rightarrow> (if cs = [] then Dir (AList.update c new es) else n)
           | Some m \<Rightarrow> Dir (AList.update c (put cs new m) es))
      | _ \<Rightarrow> n)"

fun del :: "string list \<Rightarrow> node \<Rightarrow> node" where
  "del [] n = n"
| "del (c # cs) n =
     (case n of
        Dir es \<Rightarrow>
          (if cs = [] then Dir (AList.delete c es)
           else (case map_of es c of
                   None \<Rightarrow> n
                 | Some m \<Rightarrow> Dir (AList.update c (del cs m) es)))
      | _ \<Rightarrow> n)"

text \<open>What \<^verbatim>\<open>lstat\<close> and a read can tell about a node: its kind, its bytes or its target.\<close>

datatype shape = SFile string | SDir | SLink string

definition shape_of :: "node \<Rightarrow> shape" where
  "shape_of n = (case n of File d \<Rightarrow> SFile d | Dir _ \<Rightarrow> SDir | Symlink t \<Rightarrow> SLink t)"

definition look :: "node \<Rightarrow> string list \<Rightarrow> shape option" where
  "look fs p = map_option shape_of (get fs p)"

definition is_dir :: "node option \<Rightarrow> bool" where
  "is_dir x = (case x of Some (Dir _) \<Rightarrow> True | _ \<Rightarrow> False)"

definition is_link :: "node option \<Rightarrow> bool" where
  "is_link x = (case x of Some (Symlink _) \<Rightarrow> True | _ \<Rightarrow> False)"

subsection \<open>Path names\<close>

text \<open>
  A path name as the program holds it: rooted or not, and the elements between the
  slashes. \<open>Clean\<close> and \<open>Join\<close> are \<^verbatim>\<open>filepath.Clean\<close> and \<^verbatim>\<open>filepath.Join\<close>: purely
  lexical, they drop empty and \<^verbatim>\<open>.\<close> elements and cancel \<^verbatim>\<open>..\<close> against the element
  before it.
\<close>

datatype pathname = PN (rooted: bool) (elems: "string list")

text \<open>
  A name a directory entry can have: not empty, not a dot name, no slash, no NUL byte, at
  most 255 bytes.
\<close>

definition plain :: "string \<Rightarrow> bool" where
  "plain c =
     (c \<noteq> [] \<and> c \<noteq> ''.'' \<and> c \<noteq> ''..'' \<and> CHR ''/'' \<notin> set c \<and> CHR 0x00 \<notin> set c
      \<and> length c \<le> 255)"

fun split_slash :: "string \<Rightarrow> string \<Rightarrow> string list" where
  "split_slash acc [] = [rev acc]"
| "split_slash acc (c # cs) =
     (if c = CHR ''/'' then rev acc # split_slash [] cs else split_slash (c # acc) cs)"

definition of_string :: "string \<Rightarrow> pathname" where
  "of_string s =
     (case s of
        [] \<Rightarrow> PN False (split_slash [] s)
      | c # cs \<Rightarrow> (if c = CHR ''/'' then PN True (split_slash [] cs) else PN False (split_slash [] s)))"

fun clean_elems :: "bool \<Rightarrow> string list \<Rightarrow> string list \<Rightarrow> string list" where
  "clean_elems r out [] = rev out"
| "clean_elems r out (c # cs) =
     (if c = [] \<or> c = ''.'' then clean_elems r out cs
      else if c = ''..'' then
        (case out of
           [] \<Rightarrow> (if r then clean_elems r [] cs else clean_elems r [c] cs)
         | t # ts \<Rightarrow> (if t = ''..'' then clean_elems r (c # out) cs else clean_elems r ts cs))
      else clean_elems r (c # out) cs)"

definition Clean :: "pathname \<Rightarrow> pathname" where
  "Clean p = PN (rooted p) (clean_elems (rooted p) [] (elems p))"

definition Join :: "pathname \<Rightarrow> pathname \<Rightarrow> pathname" where
  "Join p q = Clean (PN (rooted p) (elems p @ elems q))"

text \<open>
  \<^verbatim>\<open>filepath.Rel\<close>: both sides cleaned, the common leading elements dropped, one
  \<^verbatim>\<open>..\<close> for every element the base has left. It fails when one side is rooted and the
  other is not, and when the base has a \<^verbatim>\<open>..\<close> left.
\<close>

fun strip_common :: "string list \<Rightarrow> string list \<Rightarrow> string list \<times> string list" where
  "strip_common (a # as) (b # bs) = (if a = b then strip_common as bs else (a # as, b # bs))"
| "strip_common as bs = (as, bs)"

definition Rel :: "pathname \<Rightarrow> pathname \<Rightarrow> pathname option" where
  "Rel base targ =
     (let b = Clean base; t = Clean targ in
      if rooted b \<noteq> rooted t then None
      else
        (case strip_common (elems b) (elems t) of
           (rb, rt) \<Rightarrow>
             (if ''..'' \<in> set rb then None
              else Some (PN False (replicate (length rb) ''..'' @ rt)))))"

fun slashed :: "string list \<Rightarrow> string" where
  "slashed [] = []"
| "slashed [c] = c"
| "slashed (c # cs) = c @ CHR ''/'' # slashed cs"

definition to_string :: "pathname \<Rightarrow> string" where
  "to_string p =
     (if rooted p then CHR ''/'' # slashed (elems p)
      else if elems p = [] then ''.'' else slashed (elems p))"

fun ext_rev :: "string \<Rightarrow> string \<Rightarrow> string" where
  "ext_rev acc [] = []"
| "ext_rev acc (c # cs) =
     (if c = CHR ''/'' then []
      else if c = CHR ''.'' then c # acc
      else ext_rev (c # acc) cs)"

definition Ext :: "string \<Rightarrow> string" where
  "Ext s = ext_rev [] (rev s)"

subsection \<open>Path resolution\<close>

text \<open>
  The kernel's walk along a path name. \<open>cur\<close> is the directory reached so far, as the
  list of names from the root; a name is looked up in a directory only. A symbolic link
  met on the way is followed, the last element only when \<open>follow\<close> is set; the kernel
  gives up with \<open>ELOOP\<close> after 40 links, and refuses a name of more than 255 bytes.
  The result addresses the last element, which may not exist.
\<close>

fun namei :: "nat \<Rightarrow> node \<Rightarrow> bool \<Rightarrow> string list \<Rightarrow> string list \<Rightarrow> errno + string list" where
  "namei k fs follow cur [] = Inr cur"
| "namei k fs follow cur (c # cs) =
     (if c = [] then namei k fs follow cur cs
      else if \<not> is_dir (get fs cur) then Inl ENOTDIR
      else if c = ''.'' then namei k fs follow cur cs
      else if c = ''..'' then namei k fs follow (butlast cur) cs
      else if length c > 255 then Inl ENAMETOOLONG
      else
        (case get fs (cur @ [c]) of
           None \<Rightarrow> (if cs = [] then Inr (cur @ [c]) else Inl ENOENT)
         | Some (Dir es) \<Rightarrow> namei k fs follow (cur @ [c]) cs
         | Some (File d) \<Rightarrow> (if cs = [] then Inr (cur @ [c]) else Inl ENOTDIR)
         | Some (Symlink t) \<Rightarrow>
             (if cs = [] \<and> \<not> follow then Inr (cur @ [c])
              else if t = [] then Inl ENOENT
              else
                (case k of
                   0 \<Rightarrow> Inl ELOOP
                 | Suc k' \<Rightarrow>
                     namei k' fs follow (if rooted (of_string t) then [] else cur)
                       (elems (of_string t) @ cs)))))"

subsection \<open>The calls of package os\<close>

text \<open>
  What the process brings with it: the home directory that \<^verbatim>\<open>os.UserHomeDir\<close> reports,
  the working directory against which the kernel resolves an unrooted path name, the
  clock, the modification time the kernel reports for a node, and the three JSON codecs
  of \<^verbatim>\<open>encoding/json\<close> for the types the program stores. The codecs are parameters:
  a decoder returns \<open>None\<close> where \<^verbatim>\<open>json.Unmarshal\<close> returns an error.
\<close>

datatype ftype = Regular | Directory | SymbolicLink

datatype fileinfo = FileInfo (Type: ftype) (ModTime: nat)

record State =
  current :: string
  previous :: string

record Account =
  Name :: string
  Email :: string
  CreatedAt :: nat
  UpdatedAt :: nat

datatype Mode = ModeDisabled | ModeGlobal | ModeGroup | ModeOther string

record Config =
  mode :: Mode
  include_settings :: bool
  groups :: "string \<rightharpoonup> string"

record env =
  UserHomeDir :: pathname
  Getwd :: "string list"
  Now :: nat
  mtime :: "node \<Rightarrow> string list \<Rightarrow> nat"
  state_Marshal :: "State \<Rightarrow> string"
  state_Unmarshal :: "string \<Rightarrow> State option"
  account_Marshal :: "Account \<Rightarrow> string"
  account_Unmarshal :: "string \<Rightarrow> Account option"
  config_Marshal :: "Config \<Rightarrow> string"
  config_Unmarshal :: "string \<Rightarrow> Config option"

text \<open>
  A path name is resolved from the root or from the working directory. Go refuses a path
  with a NUL byte (\<open>EINVAL\<close>) before it asks the kernel; the kernel refuses the empty
  path and one of more than 4095 bytes; a working directory that is not there answers
  \<open>ENOENT\<close>.
\<close>

definition resolve :: "env \<Rightarrow> node \<Rightarrow> bool \<Rightarrow> pathname \<Rightarrow> errno + string list" where
  "resolve E fs follow p =
     (if p = PN False [[]] then Inl ENOENT
      else if \<exists>c\<in>set (elems p). CHR 0x00 \<in> set c then Inl EINVAL
      else if length (to_string p) > 4095 then Inl ENAMETOOLONG
      else if \<not> rooted p \<and> \<not> is_dir (get fs (Getwd E)) then Inl ENOENT
      else namei 40 fs follow (if rooted p then [] else Getwd E) (elems p))"

definition ftype_of :: "node \<Rightarrow> ftype" where
  "ftype_of n = (case n of File _ \<Rightarrow> Regular | Dir _ \<Rightarrow> Directory | Symlink _ \<Rightarrow> SymbolicLink)"

definition stat_at :: "env \<Rightarrow> node \<Rightarrow> bool \<Rightarrow> pathname \<Rightarrow> errno + fileinfo" where
  "stat_at E fs follow p =
     (case resolve E fs follow p of
        Inl e \<Rightarrow> Inl e
      | Inr q \<Rightarrow>
          (case get fs q of
             None \<Rightarrow> Inl ENOENT
           | Some n \<Rightarrow> Inr (FileInfo (ftype_of n) (mtime E fs q))))"

definition os_Stat :: "env \<Rightarrow> node \<Rightarrow> pathname \<Rightarrow> errno + fileinfo" where
  "os_Stat E fs p = stat_at E fs True p"

definition os_Lstat :: "env \<Rightarrow> node \<Rightarrow> pathname \<Rightarrow> errno + fileinfo" where
  "os_Lstat E fs p = stat_at E fs False p"

definition IsDir :: "fileinfo \<Rightarrow> bool" where
  "IsDir fi = (Type fi = Directory)"

definition IsNotExist :: "errno \<Rightarrow> bool" where
  "IsNotExist e = (e = ENOENT)"

definition os_ReadFile :: "env \<Rightarrow> node \<Rightarrow> pathname \<Rightarrow> errno + string" where
  "os_ReadFile E fs p =
     (case resolve E fs True p of
        Inl e \<Rightarrow> Inl e
      | Inr q \<Rightarrow>
          (case get fs q of
             None \<Rightarrow> Inl ENOENT
           | Some (File d) \<Rightarrow> Inr d
           | Some (Dir _) \<Rightarrow> Inl EISDIR
           | Some (Symlink _) \<Rightarrow> Inl ELOOP))"

definition os_WriteFile :: "env \<Rightarrow> pathname \<Rightarrow> string \<Rightarrow> node \<Rightarrow> node \<times> errno option" where
  "os_WriteFile E p d fs =
     (case resolve E fs True p of
        Inl e \<Rightarrow> (fs, Some e)
      | Inr q \<Rightarrow>
          (case get fs q of
             Some (Dir _) \<Rightarrow> (fs, Some EISDIR)
           | Some (Symlink _) \<Rightarrow> (fs, Some ELOOP)
           | _ \<Rightarrow> (put q (File d) fs, None)))"

definition os_Mkdir :: "env \<Rightarrow> pathname \<Rightarrow> node \<Rightarrow> node \<times> errno option" where
  "os_Mkdir E p fs =
     (case resolve E fs False p of
        Inl e \<Rightarrow> (fs, Some e)
      | Inr q \<Rightarrow>
          (case get fs q of
             None \<Rightarrow> (put q (Dir []) fs, None)
           | Some _ \<Rightarrow> (fs, Some EEXIST)))"

text \<open>
  \<^verbatim>\<open>os.MkdirAll\<close>: nothing to do when the path is a directory already (a symbolic link
  to one counts), \<open>ENOTDIR\<close> when it is something else; otherwise the parent first, then
  the directory itself.
\<close>

function os_MkdirAll :: "env \<Rightarrow> pathname \<Rightarrow> node \<Rightarrow> node \<times> errno option" where
  "os_MkdirAll E p fs =
     (case os_Stat E fs p of
        Inr fi \<Rightarrow> (if IsDir fi then (fs, None) else (fs, Some ENOTDIR))
      | Inl _ \<Rightarrow>
          (case (if elems p = [] then (fs, None)
                 else os_MkdirAll E (PN (rooted p) (butlast (elems p))) fs) of
             (fs1, Some e) \<Rightarrow> (fs1, Some e)
           | (fs1, None) \<Rightarrow>
               (case os_Mkdir E p fs1 of
                  (fs2, None) \<Rightarrow> (fs2, None)
                | (fs2, Some e) \<Rightarrow>
                    (case os_Lstat E fs2 p of
                       Inr fi \<Rightarrow> (if IsDir fi then (fs2, None) else (fs2, Some e))
                     | Inl _ \<Rightarrow> (fs2, Some e)))))"
  by pat_completeness auto
termination
  by (relation "measure (\<lambda>(E, p, fs). length (elems p))") auto

definition os_Remove :: "env \<Rightarrow> pathname \<Rightarrow> node \<Rightarrow> node \<times> errno option" where
  "os_Remove E p fs =
     (case resolve E fs False p of
        Inl e \<Rightarrow> (fs, Some e)
      | Inr q \<Rightarrow>
          (if q = [] then (fs, Some EINVAL)
           else
             (case get fs q of
                None \<Rightarrow> (fs, Some ENOENT)
              | Some (Dir es) \<Rightarrow> (if es = [] then (del q fs, None) else (fs, Some ENOTEMPTY))
              | Some _ \<Rightarrow> (del q fs, None))))"

definition os_RemoveAll :: "env \<Rightarrow> pathname \<Rightarrow> node \<Rightarrow> node \<times> errno option" where
  "os_RemoveAll E p fs =
     (case resolve E fs False p of
        Inl e \<Rightarrow> (if IsNotExist e then (fs, None) else (fs, Some e))
      | Inr q \<Rightarrow> (if q = [] then (fs, Some EINVAL) else (del q fs, None)))"

definition os_Symlink :: "env \<Rightarrow> string \<Rightarrow> pathname \<Rightarrow> node \<Rightarrow> node \<times> errno option" where
  "os_Symlink E target p fs =
     (case resolve E fs False p of
        Inl e \<Rightarrow> (fs, Some e)
      | Inr q \<Rightarrow>
          (case get fs q of
             Some _ \<Rightarrow> (fs, Some EEXIST)
           | None \<Rightarrow> (if target = [] then (fs, Some ENOENT) else (put q (Symlink target) fs, None))))"

definition os_Readlink :: "env \<Rightarrow> node \<Rightarrow> pathname \<Rightarrow> errno + string" where
  "os_Readlink E fs p =
     (case resolve E fs False p of
        Inl e \<Rightarrow> Inl e
      | Inr q \<Rightarrow>
          (case get fs q of
             None \<Rightarrow> Inl ENOENT
           | Some (Symlink t) \<Rightarrow> Inr t
           | Some _ \<Rightarrow> Inl EINVAL))"

text \<open>
  \<^verbatim>\<open>os.Rename\<close> refuses a new name that is a directory before it asks the kernel; the
  kernel then moves the node, replacing a file or link that has the new name.
\<close>

definition os_Rename :: "env \<Rightarrow> pathname \<Rightarrow> pathname \<Rightarrow> node \<Rightarrow> node \<times> errno option" where
  "os_Rename E old new fs =
     (case os_Lstat E fs new of
        Inr fi \<Rightarrow>
          (if IsDir fi then (fs, Some EEXIST)
           else
             (case (resolve E fs False old, resolve E fs False new) of
                (Inr qo, Inr qn) \<Rightarrow>
                  (case get fs qo of
                     None \<Rightarrow> (fs, Some ENOENT)
                   | Some (Dir es) \<Rightarrow> (fs, Some ENOTDIR)
                   | Some n \<Rightarrow> (if qo = qn then (fs, None) else (put qn n (del qo fs), None)))
              | (Inl e, _) \<Rightarrow> (fs, Some e)
              | (_, Inl e) \<Rightarrow> (fs, Some e)))
      | Inl _ \<Rightarrow>
          (case (resolve E fs False old, resolve E fs False new) of
             (Inr qo, Inr qn) \<Rightarrow>
               (case get fs qo of
                  None \<Rightarrow> (fs, Some ENOENT)
                | Some n \<Rightarrow>
                    (if qo = [] \<or> take (length qo) qn = qo then (fs, Some EINVAL)
                     else (put qn n (del qo fs), None)))
           | (Inl e, _) \<Rightarrow> (fs, Some e)
           | (_, Inl e) \<Rightarrow> (fs, Some e)))"

text \<open>
  The names in a directory, sorted, as \<^verbatim>\<open>os.ReadDir\<close> and \<^verbatim>\<open>filepath.Walk\<close> list them.
  The kernel lists entry names only; an entry of the tree under any other key is never seen.
\<close>

definition names_of :: "(string \<times> node) list \<Rightarrow> string list" where
  "names_of es = sort (remdups (filter plain (map fst es)))"

definition os_ReadDir :: "env \<Rightarrow> node \<Rightarrow> pathname \<Rightarrow> errno + (string \<times> ftype) list" where
  "os_ReadDir E fs p =
     (case resolve E fs True p of
        Inl e \<Rightarrow> Inl e
      | Inr q \<Rightarrow>
          (case get fs q of
             None \<Rightarrow> Inl ENOENT
           | Some (Dir es) \<Rightarrow>
               Inr (map (\<lambda>c. (c, case map_of es c of None \<Rightarrow> Regular | Some n \<Rightarrow> ftype_of n))
                      (names_of es))
           | Some _ \<Rightarrow> Inl ENOTDIR))"

definition readDirNames :: "env \<Rightarrow> node \<Rightarrow> pathname \<Rightarrow> errno + string list" where
  "readDirNames E fs p =
     (case os_ReadDir E fs p of Inl e \<Rightarrow> Inl e | Inr xs \<Rightarrow> Inr (map fst xs))"

subsection \<open>filepath.Walk\<close>

text \<open>
  \<^verbatim>\<open>filepath.Walk\<close> reads the file system as it goes: the names of a directory are read
  before the callback sees the directory, each name is then looked up again with
  \<^verbatim>\<open>Lstat\<close>, and whatever the callback has written by then is seen. The callback
  receives the path and either the error or the file information. No callback of this
  program returns \<^verbatim>\<open>SkipDir\<close>. A path name cannot exceed 4096 bytes, so the kernel refuses
  the name of any entry more than \<open>PATH_DEPTH\<close> levels below the root of the walk.
\<close>

definition PATH_DEPTH :: nat where
  "PATH_DEPTH = 2048"

type_synonym 'e WalkFunc = "pathname \<Rightarrow> errno + fileinfo \<Rightarrow> node \<Rightarrow> node \<times> 'e option"

function walk :: "nat \<Rightarrow> env \<Rightarrow> 'e WalkFunc \<Rightarrow> pathname \<Rightarrow> fileinfo \<Rightarrow> node \<Rightarrow> node \<times> 'e option"
  and walk_names :: "nat \<Rightarrow> env \<Rightarrow> 'e WalkFunc \<Rightarrow> pathname \<Rightarrow> string list \<Rightarrow> node \<Rightarrow> node \<times> 'e option"
where
  "walk d E fn path info fs =
     (if \<not> IsDir info then fn path (Inr info) fs
      else
        (case readDirNames E fs path of
           Inl e \<Rightarrow> fn path (Inl e) fs
         | Inr names \<Rightarrow>
             (case fn path (Inr info) fs of
                (fs1, Some x) \<Rightarrow> (fs1, Some x)
              | (fs1, None) \<Rightarrow> walk_names d E fn path names fs1)))"
| "walk_names d E fn path [] fs = (fs, None)"
| "walk_names d E fn path (n # ns) fs =
     (case (if d = 0 then Inl ENAMETOOLONG else os_Lstat E fs (Join path (PN False [n]))) of
        Inl e \<Rightarrow>
          (case fn (Join path (PN False [n])) (Inl e) fs of
             (fs1, Some x) \<Rightarrow> (fs1, Some x)
           | (fs1, None) \<Rightarrow> walk_names d E fn path ns fs1)
      | Inr fi \<Rightarrow>
          (case walk (d - 1) E fn (Join path (PN False [n])) fi fs of
             (fs1, Some x) \<Rightarrow> (fs1, Some x)
           | (fs1, None) \<Rightarrow> walk_names d E fn path ns fs1))"
  by pat_completeness auto
termination
  by (relation "measures
        [\<lambda>x. case x of Inl (d, _) \<Rightarrow> d | Inr (d, _) \<Rightarrow> d,
         \<lambda>x. case x of Inl _ \<Rightarrow> 1 | Inr _ \<Rightarrow> 0,
         \<lambda>x. case x of Inl _ \<Rightarrow> 0 | Inr (_, _, _, _, ns, _) \<Rightarrow> length ns]")
    (auto split: if_splits)

definition Walk :: "env \<Rightarrow> pathname \<Rightarrow> 'e WalkFunc \<Rightarrow> node \<Rightarrow> node \<times> 'e option" where
  "Walk E root fn fs =
     (case os_Lstat E fs root of
        Inl e \<Rightarrow> fn root (Inl e) fs
      | Inr info \<Rightarrow> walk PATH_DEPTH E fn root info fs)"

section \<open>Package codex: the fixed locations\<close>

datatype error =
    Sys errno
  | Json
  | CannotRel
  | NotFound string
  | NoCodex
  | Wrap string error

definition Home :: "env \<Rightarrow> pathname" where
  "Home E = Join (UserHomeDir E) (of_string ''.codex'')"

definition DataDir :: "env \<Rightarrow> pathname" where
  "DataDir E = Join (UserHomeDir E) (of_string ''codex-data'')"

definition StateDir :: "env \<Rightarrow> pathname" where
  "StateDir E = Join (UserHomeDir E) (of_string ''.codex-switch'')"

definition SharedDir :: "env \<Rightarrow> pathname" where
  "SharedDir E = Join (Join (UserHomeDir E) (of_string ''codex-data'')) (of_string ''shared'')"

definition GroupsDir :: "env \<Rightarrow> pathname" where
  "GroupsDir E = Join (Join (UserHomeDir E) (of_string ''codex-data'')) (of_string ''groups'')"

definition ShareableItems :: "string list" where
  "ShareableItems = [''sessions'', ''sqlite'', ''history.jsonl'', ''.codex-global-state.json'']"

definition AccountSpecificItems :: "string list" where
  "AccountSpecificItems = [''auth.json'', ''license.secret'']"

definition OptionalShareableItems :: "string list" where
  "OptionalShareableItems = [''config.toml'', ''settings.json'']"

definition AccountsDir :: "env \<Rightarrow> pathname" where
  "AccountsDir E = Join (DataDir E) (of_string ''accounts'')"

definition AccountPath :: "env \<Rightarrow> string \<Rightarrow> pathname" where
  "AccountPath E name = Join (AccountsDir E) (of_string name)"

definition StateFile :: "env \<Rightarrow> pathname" where
  "StateFile E = Join (StateDir E) (of_string ''state.json'')"

definition SharingConfigFile :: "env \<Rightarrow> pathname" where
  "SharingConfigFile E = Join (StateDir E) (of_string ''sharing.json'')"

fun MkdirAll_each :: "env \<Rightarrow> pathname list \<Rightarrow> node \<Rightarrow> node \<times> error option" where
  "MkdirAll_each E [] fs = (fs, None)"
| "MkdirAll_each E (d # ds) fs =
     (case os_MkdirAll E d fs of
        (fs1, Some e) \<Rightarrow> (fs1, Some (Sys e))
      | (fs1, None) \<Rightarrow> MkdirAll_each E ds fs1)"

definition EnsureDirs :: "env \<Rightarrow> node \<Rightarrow> node \<times> error option" where
  "EnsureDirs E fs = MkdirAll_each E [DataDir E, StateDir E, AccountsDir E] fs"


section \<open>Package sharing\<close>

record Manager =
  config :: Config

definition NewManager :: Manager where
  "NewManager = \<lparr>config = \<lparr>mode = ModeDisabled, include_settings = False, groups = Map.empty\<rparr>\<rparr>"

definition LoadConfig :: "env \<Rightarrow> Manager \<Rightarrow> node \<Rightarrow> Manager \<times> error option" where
  "LoadConfig E m fs =
     (case os_ReadFile E fs (SharingConfigFile E) of
        Inl e \<Rightarrow>
          (if IsNotExist e
           then (m\<lparr>config := \<lparr>mode = ModeDisabled, include_settings = False, groups = Map.empty\<rparr>\<rparr>, None)
           else (m, Some (Sys e)))
      | Inr data \<Rightarrow>
          (case config_Unmarshal E data of
             None \<Rightarrow> (m, Some Json)
           | Some c \<Rightarrow> (m\<lparr>config := c\<rparr>, None)))"

definition SaveConfig :: "env \<Rightarrow> Manager \<Rightarrow> node \<Rightarrow> node \<times> error option" where
  "SaveConfig E m fs =
     (case EnsureDirs E fs of
        (fs1, Some e) \<Rightarrow> (fs1, Some e)
      | (fs1, None) \<Rightarrow>
          (case os_WriteFile E (SharingConfigFile E) (config_Marshal E (config m)) fs1 of
             (fs2, Some e) \<Rightarrow> (fs2, Some (Sys e))
           | (fs2, None) \<Rightarrow> (fs2, None)))"

definition IsEnabled :: "Manager \<Rightarrow> bool" where
  "IsEnabled m = (mode (config m) = ModeGlobal \<or> mode (config m) = ModeGroup)"

definition getShareTarget :: "env \<Rightarrow> Manager \<Rightarrow> string \<Rightarrow> pathname option" where
  "getShareTarget E m account =
     (case mode (config m) of
        ModeGlobal \<Rightarrow> Some (SharedDir E)
      | ModeGroup \<Rightarrow>
          (case groups (config m) account of
             Some grp \<Rightarrow> Some (Join (GroupsDir E) (of_string grp))
           | None \<Rightarrow> None)
      | _ \<Rightarrow> None)"

text \<open>
  The two file copies of package sharing. \<^verbatim>\<open>copyFile\<close> reads the whole source, through
  any symbolic link, and writes it to the destination. The callback of \<^verbatim>\<open>copyDir\<close> has no
  case for symbolic links: an entry that is not a directory goes to \<^verbatim>\<open>copyFile\<close>. An error of
  \<^verbatim>\<open>filepath.Rel\<close> is dropped and leaves the relative path empty.
\<close>

definition sharing_copyFile :: "env \<Rightarrow> pathname \<Rightarrow> pathname \<Rightarrow> node \<Rightarrow> node \<times> error option" where
  "sharing_copyFile E src dst fs =
     (case os_ReadFile E fs src of
        Inl e \<Rightarrow> (fs, Some (Sys e))
      | Inr data \<Rightarrow>
          (case os_WriteFile E dst data fs of
             (fs1, Some e) \<Rightarrow> (fs1, Some (Sys e))
           | (fs1, None) \<Rightarrow> (fs1, None)))"

definition sharing_copyDir_fn :: "env \<Rightarrow> pathname \<Rightarrow> pathname \<Rightarrow> error WalkFunc" where
  "sharing_copyDir_fn E src dst path r fs =
     (case r of
        Inl e \<Rightarrow> (fs, Some (Sys e))
      | Inr info \<Rightarrow>
          (let dstPath = Join dst (case Rel src path of None \<Rightarrow> PN False [[]] | Some rel \<Rightarrow> rel) in
           if IsDir info then
             (case os_MkdirAll E dstPath fs of
                (fs1, Some e) \<Rightarrow> (fs1, Some (Sys e))
              | (fs1, None) \<Rightarrow> (fs1, None))
           else sharing_copyFile E path dstPath fs))"

definition sharing_copyDir :: "env \<Rightarrow> pathname \<Rightarrow> pathname \<Rightarrow> node \<Rightarrow> node \<times> error option" where
  "sharing_copyDir E src dst fs = Walk E src (sharing_copyDir_fn E src dst) fs"

definition copyPath :: "env \<Rightarrow> pathname \<Rightarrow> pathname \<Rightarrow> node \<Rightarrow> node \<times> error option" where
  "copyPath E src dst fs =
     (case os_Stat E fs src of
        Inl e \<Rightarrow> (fs, Some (Sys e))
      | Inr info \<Rightarrow>
          (if IsDir info then sharing_copyDir E src dst fs else sharing_copyFile E src dst fs))"

text \<open>
  \<^verbatim>\<open>setupSymlink\<close>, in the four steps of the source. The results of \<^verbatim>\<open>os.Remove\<close> and
  \<^verbatim>\<open>os.RemoveAll\<close> are not looked at there.
\<close>

definition setupSymlink :: "env \<Rightarrow> string \<Rightarrow> pathname \<Rightarrow> node \<Rightarrow> node \<times> error option" where
  "setupSymlink E item targetDir fs =
     (let src = Join (Home E) (of_string item);
          dest = Join targetDir (of_string item);
          link = os_Readlink E fs src
      in
        if link = Inr (to_string dest) then (fs, None)
        else
          (let fs1 = (case link of Inr _ \<Rightarrow> fst (os_Remove E src fs) | Inl _ \<Rightarrow> fs);
               migrated =
                 (case os_Lstat E fs1 src of
                    Inr info \<Rightarrow>
                      (if Type info \<noteq> SymbolicLink then
                         (case os_Stat E fs1 dest of
                            Inl e \<Rightarrow>
                              (if IsNotExist e then os_Rename E src dest fs1
                               else (fst (os_RemoveAll E src fs1), None))
                          | Inr _ \<Rightarrow> (fst (os_RemoveAll E src fs1), None))
                       else (fs1, None))
                  | Inl _ \<Rightarrow> (fs1, None))
           in
             (case migrated of
                (fs2, Some e) \<Rightarrow> (fs2, Some (Sys e))
              | (fs2, None) \<Rightarrow>
                  (let ensured =
                         (case os_Stat E fs2 dest of
                            Inl e \<Rightarrow>
                              (if IsNotExist e then
                                 (if Ext item \<noteq> [] then os_WriteFile E dest [] fs2
                                  else os_MkdirAll E dest fs2)
                               else (fs2, None))
                          | Inr _ \<Rightarrow> (fs2, None))
                   in
                     (case ensured of
                        (fs3, Some e) \<Rightarrow> (fs3, Some (Sys e))
                      | (fs3, None) \<Rightarrow>
                          (case os_Symlink E (to_string dest) src fs3 of
                             (fs4, Some e) \<Rightarrow> (fs4, Some (Sys e))
                           | (fs4, None) \<Rightarrow> (fs4, None)))))))"

fun setupSymlink_each :: "env \<Rightarrow> string list \<Rightarrow> pathname \<Rightarrow> node \<Rightarrow> node \<times> error option" where
  "setupSymlink_each E [] targetDir fs = (fs, None)"
| "setupSymlink_each E (item # items) targetDir fs =
     (case setupSymlink E item targetDir fs of
        (fs1, Some e) \<Rightarrow> (fs1, Some (Wrap (''failed to setup symlink for '' @ item) e))
      | (fs1, None) \<Rightarrow> setupSymlink_each E items targetDir fs1)"

definition SetupSymlinks :: "env \<Rightarrow> Manager \<Rightarrow> node \<Rightarrow> node \<times> error option" where
  "SetupSymlinks E m fs =
     (if \<not> IsEnabled m then (fs, None)
      else
        (case getShareTarget E m [] of
           None \<Rightarrow> (fs, None)
         | Some targetDir \<Rightarrow>
             (case os_MkdirAll E targetDir fs of
                (fs1, Some e) \<Rightarrow> (fs1, Some (Sys e))
              | (fs1, None) \<Rightarrow>
                  (case setupSymlink_each E ShareableItems targetDir fs1 of
                     (fs2, Some e) \<Rightarrow> (fs2, Some e)
                   | (fs2, None) \<Rightarrow>
                       (if include_settings (config m)
                        then setupSymlink_each E OptionalShareableItems targetDir fs2
                        else (fs2, None))))))"

fun RemoveSymlinks_each :: "env \<Rightarrow> string list \<Rightarrow> node \<Rightarrow> node \<times> error option" where
  "RemoveSymlinks_each E [] fs = (fs, None)"
| "RemoveSymlinks_each E (item # items) fs =
     (let src = Join (Home E) (of_string item) in
      case os_Readlink E fs src of
        Inl _ \<Rightarrow> RemoveSymlinks_each E items fs
      | Inr link \<Rightarrow>
          (let fs1 = fst (os_Remove E src fs) in
           case os_Stat E fs1 (of_string link) of
             Inl _ \<Rightarrow> RemoveSymlinks_each E items fs1
           | Inr _ \<Rightarrow>
               (case copyPath E (of_string link) src fs1 of
                  (fs2, Some e) \<Rightarrow> (fs2, Some e)
                | (fs2, None) \<Rightarrow> RemoveSymlinks_each E items fs2)))"

definition RemoveSymlinks :: "env \<Rightarrow> node \<Rightarrow> node \<times> error option" where
  "RemoveSymlinks E fs = RemoveSymlinks_each E (ShareableItems @ OptionalShareableItems) fs"

definition Enable :: "env \<Rightarrow> bool \<Rightarrow> Manager \<Rightarrow> node \<Rightarrow> Manager \<times> node \<times> error option" where
  "Enable E includeSettings m fs =
     (let m1 = m\<lparr>config := (config m)\<lparr>mode := ModeGlobal, include_settings := includeSettings\<rparr>\<rparr> in
      case os_MkdirAll E (SharedDir E) fs of
        (fs1, Some e) \<Rightarrow> (m1, fs1, Some (Sys e))
      | (fs1, None) \<Rightarrow>
          (case SetupSymlinks E m1 fs1 of
             (fs2, Some e) \<Rightarrow> (m1, fs2, Some e)
           | (fs2, None) \<Rightarrow> (m1, SaveConfig E m1 fs2)))"

definition Disable :: "env \<Rightarrow> Manager \<Rightarrow> node \<Rightarrow> Manager \<times> node \<times> error option" where
  "Disable E m fs =
     (case RemoveSymlinks E fs of
        (fs1, Some e) \<Rightarrow> (m, fs1, Some e)
      | (fs1, None) \<Rightarrow>
          (let m1 = m\<lparr>config := (config m)\<lparr>mode := ModeDisabled, include_settings := False\<rparr>\<rparr>
           in (m1, SaveConfig E m1 fs1)))"

section \<open>Package storage\<close>




text \<open>
  The active-state record. \<^verbatim>\<open>loadState\<close> and \<^verbatim>\<open>Current\<close> have an error result in their
  signature and never use it.
\<close>

definition loadState :: "env \<Rightarrow> node \<Rightarrow> error + State" where
  "loadState E fs =
     (case os_ReadFile E fs (StateFile E) of
        Inl _ \<Rightarrow> Inr \<lparr>current = [], previous = []\<rparr>
      | Inr data \<Rightarrow>
          (case state_Unmarshal E data of
             None \<Rightarrow> Inr \<lparr>current = [], previous = []\<rparr>
           | Some st \<Rightarrow> Inr st))"


definition Current :: "env \<Rightarrow> node \<Rightarrow> error + string" where
  "Current E fs =
     (case loadState E fs of
        Inl _ \<Rightarrow> Inr []
      | Inr st \<Rightarrow> Inr (current st))"

definition Get :: "env \<Rightarrow> string \<Rightarrow> node \<Rightarrow> error + Account" where
  "Get E name fs =
     (let accountPath = AccountPath E name;
          metaPath = Join accountPath (of_string ''.account.json'')
      in
        (case os_ReadFile E fs metaPath of
           Inl e \<Rightarrow>
             (if IsNotExist e then
                (case os_Stat E fs accountPath of
                   Inl _ \<Rightarrow> Inl (NotFound name)
                 | Inr info \<Rightarrow>
                     Inr \<lparr>Name = name, Email = [], CreatedAt = ModTime info, UpdatedAt = ModTime info\<rparr>)
              else Inl (Sys e))
         | Inr data \<Rightarrow>
             (case account_Unmarshal E data of
                None \<Rightarrow> Inl Json
              | Some acc \<Rightarrow> Inr acc)))"




definition Delete :: "env \<Rightarrow> string \<Rightarrow> node \<Rightarrow> node \<times> error option" where
  "Delete E name fs =
     (let accountPath = AccountPath E name in
      if (case os_Stat E fs accountPath of Inl e \<Rightarrow> IsNotExist e | Inr _ \<Rightarrow> False)
      then (fs, Some (NotFound name))
      else
        (case os_RemoveAll E accountPath fs of
           (fs1, Some e) \<Rightarrow> (fs1, Some (Sys e))
         | (fs1, None) \<Rightarrow> (fs1, None)))"




section \<open>An example environment\<close>

text \<open>
  A small environment for the concrete runs below: the home directory is \<^verbatim>\<open>/h\<close>, and
  the codecs are toy ones that reject some strings, as every JSON decoder does.
\<close>

definition ex_state_Marshal :: "State \<Rightarrow> string" where
  "ex_state_Marshal st = current st @ CHR ''/'' # previous st"

definition ex_state_Unmarshal :: "string \<Rightarrow> State option" where
  "ex_state_Unmarshal s =
     (case split_slash [] s of [a, b] \<Rightarrow> Some \<lparr>current = a, previous = b\<rparr> | _ \<Rightarrow> None)"

definition ex_config_Marshal :: "Config \<Rightarrow> string" where
  "ex_config_Marshal c =
     (case mode c of ModeGlobal \<Rightarrow> ''global'' | ModeGroup \<Rightarrow> ''group'' | _ \<Rightarrow> ''disabled'')"

definition ex_config_Unmarshal :: "string \<Rightarrow> Config option" where
  "ex_config_Unmarshal s =
     (if s = ''global''
      then Some \<lparr>mode = ModeGlobal, include_settings = False, groups = Map.empty\<rparr>
      else if s = ''disabled''
      then Some \<lparr>mode = ModeDisabled, include_settings = False, groups = Map.empty\<rparr>
      else None)"

definition ex_account_Marshal :: "Account \<Rightarrow> string" where
  "ex_account_Marshal a = CHR ''@'' # Name a"

definition ex_account_Unmarshal :: "string \<Rightarrow> Account option" where
  "ex_account_Unmarshal s =
     (case s of
        [] \<Rightarrow> None
      | c # cs \<Rightarrow>
          (if c = CHR ''@'' then Some \<lparr>Name = cs, Email = [], CreatedAt = 0, UpdatedAt = 0\<rparr>
           else None))"

definition ex_env :: env where
  "ex_env =
     \<lparr>UserHomeDir = PN True [''h''], Getwd = [], Now = 7, mtime = (\<lambda>_ _. 3),
      state_Marshal = ex_state_Marshal, state_Unmarshal = ex_state_Unmarshal,
      account_Marshal = ex_account_Marshal, account_Unmarshal = ex_account_Unmarshal,
      config_Marshal = ex_config_Marshal, config_Unmarshal = ex_config_Unmarshal\<rparr>"

definition ex_fs_fresh :: node where
  "ex_fs_fresh = Dir [(''h'', Dir [])]"

definition ex_fs_corrupt :: node where
  "ex_fs_corrupt =
     Dir [(''h'', Dir [(''.codex-switch'',
       Dir [(''state.json'', File ''{''), (''sharing.json'', File ''{'')])])]"

definition ex_fs_accounts :: node where
  "ex_fs_accounts =
     Dir [(''h'', Dir
       [(''.codex'', Dir [(''marker.txt'', File ''live'')]),
        (''codex-data'', Dir [(''accounts'', Dir
           [(''bad'', Dir [(''.account.json'', File ''{'')]),
            (''ok'', Dir [(''.account.json'', File ''@ok''), (''marker.txt'', File ''ok'')]),
            (''old'', Dir [(''marker.txt'', File ''old'')])])]),
        (''.codex-switch'', Dir [(''state.json'', File ''ok/'')])])]"






text \<open>A layout in which the accounts root is a symbolic link to a directory elsewhere.\<close>

definition ex_fs_linked :: node where
  "ex_fs_linked =
     Dir [(''h'', Dir
            [(''.codex'', Dir [(''marker.txt'', File ''live'')]),
             (''codex-data'', Dir [(''accounts'', Symlink ''/real'')]),
             (''.codex-switch'', Dir [])]),
          (''real'', Dir [(''p1'', Dir [(''marker.txt'', File ''one'')])])]"

section \<open>Notions used in the statements\<close>

text \<open>
  \<open>nodot\<close> and \<open>cleaned\<close> describe what \<open>Clean\<close> returns; \<open>named\<close> is an element
  that the kernel looks up in a directory. \<open>fits\<close> says that a rooted
  path is within the kernel's 4095 bytes, \<open>phys\<close> that it reaches its last element
  through directories only, with no symbolic link on the way.
\<close>

definition nodot :: "string \<Rightarrow> bool" where
  "nodot c = (c \<noteq> [] \<and> c \<noteq> ''.'' \<and> c \<noteq> ''..'')"

definition named :: "string \<Rightarrow> bool" where
  "named c = (nodot c \<and> length c \<le> 255)"

definition cleaned :: "bool \<Rightarrow> string list \<Rightarrow> bool" where
  "cleaned r xs = (\<exists>k ys. xs = replicate k ''..'' @ ys \<and> (r \<longrightarrow> k = 0) \<and> list_all nodot ys)"

definition fits :: "string list \<Rightarrow> bool" where
  "fits p = (length (to_string (PN True p)) \<le> 4095)"

definition phys :: "node \<Rightarrow> string list \<Rightarrow> bool" where
  "phys fs p = (p \<noteq> [] \<and> list_all plain p \<and> fits p \<and> is_dir (get fs (butlast p)))"

text \<open>\<open>missing\<close>: a resolution that ends in \<^verbatim>\<open>ENOENT\<close> or at a name that has no node.\<close>

definition missing :: "node \<Rightarrow> errno + string list \<Rightarrow> bool" where
  "missing fs r = (case r of Inl e \<Rightarrow> e = ENOENT | Inr q \<Rightarrow> get fs q = None)"

text \<open>
  The recursive equations of \<open>os_MkdirAll\<close> and of the walk are unfolded by hand where
  they are needed.
\<close>

declare os_MkdirAll.simps [simp del]

declare walk.simps [simp del]

declare walk_names.simps [simp del]

section \<open>Path names: lemmas\<close>

lemma split_slash_noslash: "CHR ''/'' \<notin> set s \<Longrightarrow> split_slash acc s = [rev acc @ s]"
  by (induction s arbitrary: acc) auto

lemma of_string_plain: "plain c \<Longrightarrow> of_string c = PN False [c]"
  by (cases c) (auto simp: of_string_def plain_def split_slash_noslash)

lemma of_string_empty: "of_string [] = PN False [[]]"
  by (simp add: of_string_def)


lemma clean_elems_append:
  "clean_elems r out (xs @ ys) = clean_elems r (rev (clean_elems r out xs)) ys"
  by (induction r out xs rule: clean_elems.induct) (auto split: list.splits)

lemma cleaned_snoc: "cleaned r xs \<Longrightarrow> nodot c \<Longrightarrow> cleaned r (xs @ [c])"
  unfolding cleaned_def
  by (elim exE conjE, rule_tac x=k in exI, rule_tac x="ys @ [c]" in exI) simp

lemma cleaned_Nil: "cleaned r []"
  unfolding cleaned_def by auto

lemma clean_elems_cleaned: "cleaned r (rev out) \<Longrightarrow> cleaned r (clean_elems r out cs)"
proof (induction r out cs rule: clean_elems.induct)
  case (1 r out)
  then show ?case by simp
next
  case (2 r out c cs)
  show ?case
  proof (cases "c = [] \<or> c = ''.''")
    case True
    then show ?thesis using 2 by simp
  next
    case F: False
    show ?thesis
    proof (cases "c = ''..''")
      case True
      show ?thesis
      proof (cases out)
        case Nil
        have "cleaned r [c]" if "\<not> r"
          using that True unfolding cleaned_def
          by (intro exI[of _ 1] exI[of _ "[]"]) simp
        then show ?thesis using 2 F True Nil by (auto simp: cleaned_Nil)
      next
        case (Cons t ts)
        show ?thesis
        proof (cases "t = ''..''")
          case T: True
          obtain k ys where k: "rev out = replicate k ''..'' @ ys" "r \<longrightarrow> k = 0" "list_all nodot ys"
            using "2.prems" unfolding cleaned_def by blast
          have "ys = []"
          proof (rule ccontr)
            assume "ys \<noteq> []"
            then have "last (rev out) = last ys" using k(1) by simp
            moreover have "last (rev out) = ''..''" using Cons T by simp
            moreover have "nodot (last ys)" using k(3) \<open>ys \<noteq> []\<close>
              by (metis last_in_set list_all_iff)
            ultimately show False by (simp add: nodot_def)
          qed
          then have "rev (c # out) = replicate (Suc k) ''..''"
            using k(1) True by (simp add: replicate_append_same)
          moreover have "\<not> r" using k \<open>ys = []\<close> Cons by (cases k) auto
          ultimately have "cleaned r (rev (c # out))"
            unfolding cleaned_def by (intro exI[of _ "Suc k"] exI[of _ "[]"]) simp
          then show ?thesis using 2 F True Cons T by simp
        next
          case NT: False
          obtain k ys where k: "rev out = replicate k ''..'' @ ys" "r \<longrightarrow> k = 0" "list_all nodot ys"
            using "2.prems" unfolding cleaned_def by blast
          have "ys \<noteq> []"
          proof
            assume "ys = []"
            then have "rev out = replicate k ''..''" using k by simp
            then have "set (rev out) \<subseteq> {''..''}" by auto
            then show False using Cons NT by auto
          qed
          then have "rev ts = replicate k ''..'' @ butlast ys"
            using k(1) Cons by (metis butlast_append butlast_snoc rev.simps(2))
          moreover have "list_all nodot (butlast ys)"
            using k(3) by (metis in_set_butlastD list_all_iff)
          ultimately have "cleaned r (rev ts)" using k(2) unfolding cleaned_def by blast
          then show ?thesis using 2 F True Cons NT by simp
        qed
      qed
    next
      case False
      then have "nodot c" using F by (simp add: nodot_def)
      then have "cleaned r (rev (c # out))" using "2.prems" by (simp add: cleaned_snoc)
      then show ?thesis using 2 F False by simp
    qed
  qed
qed

lemma clean_elems_dotdots:
  "\<not> r \<Longrightarrow> clean_elems r (replicate j ''..'') (replicate k ''..'' @ ys) = clean_elems r (replicate (j + k) ''..'') ys"
proof (induction k arbitrary: j)
  case 0
  then show ?case by simp
next
  case (Suc k)
  have "clean_elems r (replicate j ''..'') (''..'' # replicate k ''..'' @ ys)
      = clean_elems r (replicate (Suc j) ''..'') (replicate k ''..'' @ ys)"
    using Suc.prems by (cases j) auto
  then show ?case using Suc.IH[OF Suc.prems, of "Suc j"] by simp
qed

lemma clean_elems_nodot: "list_all nodot cs \<Longrightarrow> clean_elems r out cs = rev out @ cs"
  by (induction cs arbitrary: out) (auto simp: nodot_def)

lemma clean_elems_idem: "cleaned r xs \<Longrightarrow> clean_elems r [] xs = xs"
proof -
  assume "cleaned r xs"
  then obtain k ys where k: "xs = replicate k ''..'' @ ys" "r \<longrightarrow> k = 0" "list_all nodot ys"
    unfolding cleaned_def by blast
  show ?thesis
  proof (cases r)
    case True
    then show ?thesis using k by (simp add: clean_elems_nodot)
  next
    case False
    have "clean_elems r [] xs = clean_elems r (replicate (0 + k) ''..'') ys"
      using clean_elems_dotdots[OF False, of 0 k ys] k(1) by simp
    then show ?thesis using k by (simp add: clean_elems_nodot)
  qed
qed

lemma Clean_idem: "Clean (Clean p) = Clean p"
  using clean_elems_idem[OF clean_elems_cleaned[of "rooted p" "[]" "elems p"]]
  by (simp add: Clean_def cleaned_Nil)

lemma Join_empty: "Join (Clean p) (of_string []) = Clean p"
proof -
  have "clean_elems (rooted p) [] (clean_elems (rooted p) [] (elems p) @ [[]])
      = clean_elems (rooted p) [] (elems p)"
    using clean_elems_idem[OF clean_elems_cleaned[of "rooted p" "[]" "elems p"]]
    by (simp add: clean_elems_append cleaned_Nil)
  then show ?thesis by (simp add: Join_def Clean_def of_string_def)
qed

lemma AccountPath_empty: "AccountPath E [] = AccountsDir E"
  unfolding AccountPath_def AccountsDir_def
  by (metis Join_def Join_empty)

section \<open>The tree: lemmas\<close>

lemma get_append: "get fs (p @ q) = (case get fs p of None \<Rightarrow> None | Some n \<Rightarrow> get n q)"
  by (induction p arbitrary: fs) (auto split: node.splits option.splits)

lemma get_snoc_None: "get fs p = None \<Longrightarrow> get fs (p @ q) = None"
  by (simp add: get_append)

lemma is_dir_simps [simp]:
  "is_dir None = False" "is_dir (Some (Dir es)) = True"
  "is_dir (Some (File d)) = False" "is_dir (Some (Symlink t)) = False"
  by (simp_all add: is_dir_def)

lemma is_link_simps [simp]:
  "is_link None = False" "is_link (Some (Dir es)) = False"
  "is_link (Some (File d)) = False" "is_link (Some (Symlink t)) = True"
  by (simp_all add: is_link_def)

lemma shape_of_simps [simp]:
  "shape_of (File d) = SFile d" "shape_of (Dir es) = SDir" "shape_of (Symlink t) = SLink t"
  by (simp_all add: shape_of_def)

lemma shape_of_eq [simp]:
  "shape_of n = SDir \<longleftrightarrow> (\<exists>es. n = Dir es)"
  "shape_of n = SFile d \<longleftrightarrow> n = File d"
  "shape_of n = SLink t \<longleftrightarrow> n = Symlink t"
  by (cases n; simp)+

lemma get_put_under:
  "p = [] \<or> is_dir (get fs (butlast p)) \<Longrightarrow> get (put p new fs) (p @ r) = get new r"
proof (induction p arbitrary: fs)
  case Nil
  then show ?case by simp
next
  case (Cons c cs)
  show ?case
  proof (cases "cs = []")
    case True
    then show ?thesis using Cons.prems
      by (auto simp: update_conv' split: node.splits option.splits)
  next
    case False
    then have "is_dir (get fs (c # butlast cs))" using Cons.prems by simp
    then obtain es m where fs: "fs = Dir es" "map_of es c = Some m" "is_dir (get m (butlast cs))"
      by (auto split: node.splits option.splits)
    have "get (put cs new m) (cs @ r) = get new r" using Cons.IH fs(3) by blast
    then show ?thesis using fs by (simp add: update_conv')
  qed
qed

lemma look_put_other: "\<not> prefix p q \<Longrightarrow> look (put p new fs) q = look fs q"
proof (induction p arbitrary: fs q)
  case Nil
  then show ?case by simp
next
  case (Cons c cs)
  show ?case
  proof (cases q)
    case Nil
    then show ?thesis by (auto simp: look_def split: node.splits option.splits)
  next
    case (Cons d ds)
    show ?thesis
    proof (cases "d = c")
      case True
      then have "\<not> prefix cs ds" using Cons.prems Cons by simp
      then have IH: "\<And>m. look (put cs new m) ds = look m ds" using Cons.IH by blast
      have "ds \<noteq> [] \<or> cs \<noteq> []" using \<open>\<not> prefix cs ds\<close> by auto
      then show ?thesis using Cons True IH \<open>\<not> prefix cs ds\<close>
        by (auto simp: look_def update_conv' split: node.splits option.splits)
    next
      case False
      then show ?thesis using Cons
        by (auto simp: look_def update_conv' split: node.splits option.splits)
    qed
  qed
qed

lemma get_del_under: "p \<noteq> [] \<Longrightarrow> get (del p fs) (p @ r) = None"
proof (induction p arbitrary: fs)
  case Nil
  then show ?case by simp
next
  case (Cons c cs)
  show ?case
  proof (cases "cs = []")
    case True
    then show ?thesis by (auto simp: delete_conv' split: node.splits option.splits)
  next
    case False
    then have IH: "\<And>m. get (del cs m) (cs @ r) = None" using Cons.IH by blast
    show ?thesis
    proof (cases fs)
      case (Dir es)
      then show ?thesis using False IH
        by (cases "map_of es c") (auto simp: update_conv' get_append)
    qed simp_all
  qed
qed

lemma look_del_other: "\<not> prefix p q \<Longrightarrow> look (del p fs) q = look fs q"
proof (induction p arbitrary: fs q)
  case Nil
  then show ?case by simp
next
  case (Cons c cs)
  show ?case
  proof (cases q)
    case Nil
    then show ?thesis by (auto simp: look_def split: node.splits option.splits)
  next
    case (Cons d ds)
    show ?thesis
    proof (cases "d = c")
      case True
      then have np: "\<not> prefix cs ds" using Cons.prems Cons by simp
      then have IH: "\<And>m. look (del cs m) ds = look m ds" using Cons.IH by blast
      have "cs \<noteq> []" using np by auto
      then show ?thesis using Cons True IH
        by (auto simp: look_def update_conv' delete_conv' split: node.splits option.splits)
    next
      case False
      then show ?thesis using Cons
        by (auto simp: look_def update_conv' delete_conv' split: node.splits option.splits)
    qed
  qed
qed

lemma look_put_under:
  "p = [] \<or> is_dir (get fs (butlast p)) \<Longrightarrow> look (put p new fs) (p @ r) = look new r"
  by (simp add: look_def get_put_under)

lemma look_del_under: "p \<noteq> [] \<Longrightarrow> look (del p fs) (p @ r) = None"
  by (simp add: look_def get_del_under)

lemma look_Nil [simp]: "look fs [] = Some (shape_of fs)"
  by (simp add: look_def)

lemma look_append: "look fs (p @ q) = (case get fs p of None \<Rightarrow> None | Some n \<Rightarrow> look n q)"
  by (simp add: look_def get_append split: option.splits)

lemma is_dir_look: "is_dir (get fs p) \<longleftrightarrow> look fs p = Some SDir"
  by (auto simp: look_def is_dir_def split: option.splits node.splits)

lemma is_link_look: "is_link (get fs p) \<longleftrightarrow> (\<exists>t. look fs p = Some (SLink t))"
  by (auto simp: look_def is_link_def split: option.splits node.splits)

lemma look_child_of_nondir: "look fs p \<noteq> Some SDir \<Longrightarrow> r \<noteq> [] \<Longrightarrow> look fs (p @ r) = None"
  by (cases r) (auto simp: look_def get_append split: option.splits node.splits)

section \<open>Resolution along directories\<close>

lemma is_dir_prefix: "is_dir (get fs (p @ q)) \<Longrightarrow> is_dir (get fs p)"
  by (cases q) (auto simp: get_append is_dir_def split: option.splits node.splits)

lemma namei_dirs:
  "list_all plain cs1 \<Longrightarrow> is_dir (get fs (cur @ cs1)) \<Longrightarrow>
   namei k fs fl cur (cs1 @ cs2) = namei k fs fl (cur @ cs1) cs2"
proof (induction cs1 arbitrary: cur)
  case Nil
  then show ?case by simp
next
  case (Cons c cs)
  have d: "is_dir (get fs ((cur @ [c]) @ cs))" using Cons.prems by simp
  then have "is_dir (get fs (cur @ [c]))" by (rule is_dir_prefix)
  then obtain es where "get fs (cur @ [c]) = Some (Dir es)"
    by (auto simp: is_dir_def split: option.splits node.splits)
  moreover have "c \<noteq> []" "c \<noteq> ''.''" "c \<noteq> ''..''" "\<not> length c > 255"
    using Cons.prems by (simp_all add: plain_def)
  moreover have "is_dir (get fs cur)" using Cons.prems(2) by (rule is_dir_prefix)
  moreover have "namei k fs fl (cur @ [c]) (cs @ cs2) = namei k fs fl ((cur @ [c]) @ cs) cs2"
    using Cons.IH[of "cur @ [c]"] d Cons.prems by simp
  ultimately show ?case by simp
qed

lemma namei_last:
  "plain c \<Longrightarrow> is_dir (get fs cur) \<Longrightarrow> namei k fs fl cur [c] =
     (case get fs (cur @ [c]) of
        Some (Symlink t) \<Rightarrow>
          (if \<not> fl then Inr (cur @ [c])
           else if t = [] then Inl ENOENT
           else (case k of 0 \<Rightarrow> Inl ELOOP
                 | Suc k' \<Rightarrow> namei k' fs fl (if rooted (of_string t) then [] else cur) (elems (of_string t))))
      | _ \<Rightarrow> Inr (cur @ [c]))"
  by (auto simp: plain_def split: option.splits node.splits nat.splits)

lemma plain_no_NUL: "list_all plain p \<Longrightarrow> \<not> (\<exists>c\<in>set p. CHR 0x00 \<in> set c)"
  by (auto simp: list_all_iff plain_def)

lemma resolve_phys:
  assumes "phys fs p" "fl \<longrightarrow> \<not> is_link (get fs p)"
  shows "resolve E fs fl (PN True p) = Inr p"
proof -
  obtain ps c where p: "p = ps @ [c]" using assms(1) by (auto simp: phys_def) (metis snoc_eq_iff_butlast)
  have h: "list_all plain ps" "plain c" "is_dir (get fs ps)" using assms(1) p by (auto simp: phys_def)
  have "namei 40 fs fl [] (ps @ [c]) = namei 40 fs fl ps [c]"
    using namei_dirs[of ps fs "[]" 40 fl "[c]"] h by simp
  also have "\<dots> = Inr (ps @ [c])"
    using assms(2) p
    by (subst namei_last[OF h(2) h(3)]) (auto simp: is_link_def split: option.splits node.splits)
  finally show ?thesis
    using assms(1) plain_no_NUL[of p] by (simp add: resolve_def p phys_def fits_def)
qed

lemma resolve_dir:
  assumes "list_all plain p" "is_dir (get fs p)" "fits p"
  shows "resolve E fs fl (PN True p) = Inr p"
  using namei_dirs[of p fs "[]" 40 fl "[]"] assms plain_no_NUL[OF assms(1)]
  by (simp add: resolve_def fits_def)

lemma stat_at_phys:
  assumes "phys fs p" "fl \<longrightarrow> \<not> is_link (get fs p)"
  shows "stat_at E fs fl (PN True p) =
     (case get fs p of None \<Rightarrow> Inl ENOENT | Some n \<Rightarrow> Inr (FileInfo (ftype_of n) (mtime E fs p)))"
  by (simp add: stat_at_def resolve_phys[OF assms])

lemma stat_at_dir:
  assumes "list_all plain p" "is_dir (get fs p)" "fits p"
  shows "stat_at E fs fl (PN True p) = Inr (FileInfo Directory (mtime E fs p))"
  using assms(2) by (auto simp: stat_at_def resolve_dir[OF assms] is_dir_def ftype_of_def
      split: option.splits node.splits)

lemma os_ReadFile_phys:
  assumes "phys fs p" "\<not> is_link (get fs p)"
  shows "os_ReadFile E fs (PN True p) =
     (case get fs p of None \<Rightarrow> Inl ENOENT | Some (File d) \<Rightarrow> Inr d | Some _ \<Rightarrow> Inl EISDIR)"
  using assms(2) by (auto simp: os_ReadFile_def resolve_phys[OF assms(1)] is_link_def
      split: option.splits node.splits)

lemma os_WriteFile_phys:
  assumes "phys fs p" "\<not> is_link (get fs p)"
  shows "os_WriteFile E (PN True p) d fs =
     (if is_dir (get fs p) then (fs, Some EISDIR) else (put p (File d) fs, None))"
  using assms(2) by (auto simp: os_WriteFile_def resolve_phys[OF assms(1)] is_link_def
      split: option.splits node.splits)

lemma os_Mkdir_phys:
  assumes "phys fs p"
  shows "os_Mkdir E (PN True p) fs =
     (case get fs p of None \<Rightarrow> (put p (Dir []) fs, None) | Some _ \<Rightarrow> (fs, Some EEXIST))"
  by (simp add: os_Mkdir_def resolve_phys[OF assms])

lemma os_Symlink_phys:
  assumes "phys fs p"
  shows "os_Symlink E t (PN True p) fs =
     (case get fs p of
        Some _ \<Rightarrow> (fs, Some EEXIST)
      | None \<Rightarrow> (if t = [] then (fs, Some ENOENT) else (put p (Symlink t) fs, None)))"
  by (simp add: os_Symlink_def resolve_phys[OF assms])

lemma os_Readlink_phys:
  assumes "phys fs p"
  shows "os_Readlink E fs (PN True p) =
     (case get fs p of None \<Rightarrow> Inl ENOENT | Some (Symlink t) \<Rightarrow> Inr t | Some _ \<Rightarrow> Inl EINVAL)"
  by (simp add: os_Readlink_def resolve_phys[OF assms])

lemma os_Remove_phys:
  assumes "phys fs p"
  shows "os_Remove E (PN True p) fs =
     (case get fs p of
        None \<Rightarrow> (fs, Some ENOENT)
      | Some (Dir es) \<Rightarrow> (if es = [] then (del p fs, None) else (fs, Some ENOTEMPTY))
      | Some _ \<Rightarrow> (del p fs, None))"
  using assms by (auto simp: os_Remove_def resolve_phys[OF assms] phys_def)

lemma os_RemoveAll_phys:
  assumes "phys fs p"
  shows "os_RemoveAll E (PN True p) fs = (del p fs, None)"
  using assms by (auto simp: os_RemoveAll_def resolve_phys[OF assms] phys_def)

lemma os_MkdirAll_dir:
  assumes "list_all plain p" "is_dir (get fs p)" "fits p"
  shows "os_MkdirAll E (PN True p) fs = (fs, None)"
  by (subst os_MkdirAll.simps) (simp add: os_Stat_def stat_at_dir[OF assms] IsDir_def)

lemma length_slashed: "length (slashed xs) = sum_list (map length xs) + (length xs - 1)"
  by (induction xs rule: slashed.induct) simp_all

lemma length_to_string_rooted:
  "length (to_string (PN True xs)) = Suc (sum_list (map length xs) + (length xs - 1))"
  by (simp add: to_string_def length_slashed)

lemma fits_prefix: "fits (p @ q) \<Longrightarrow> fits p"
  by (simp add: fits_def length_to_string_rooted)

lemma fits_butlast: "fits p \<Longrightarrow> fits (butlast p)"
  using fits_prefix[of "butlast p" "[last p]"] by (cases "p = []") simp_all

lemma os_MkdirAll_phys:
  assumes "phys fs p" "\<not> is_link (get fs p)"
  shows "os_MkdirAll E (PN True p) fs =
     (case get fs p of
        None \<Rightarrow> (put p (Dir []) fs, None)
      | Some (Dir es) \<Rightarrow> (fs, None)
      | Some _ \<Rightarrow> (fs, Some ENOTDIR))"
proof (cases "get fs p")
  case None
  have par: "os_MkdirAll E (PN True (butlast p)) fs = (fs, None)"
    using assms(1) by (intro os_MkdirAll_dir) (auto simp: phys_def list_all_iff fits_butlast dest: in_set_butlastD)
  have "p \<noteq> []" using assms(1) by (simp add: phys_def)
  then show ?thesis using None par
    by (subst os_MkdirAll.simps)
       (simp add: os_Stat_def stat_at_phys[OF assms(1)] os_Mkdir_phys[OF assms(1)])
next
  case (Some n)
  then show ?thesis using assms(2)
    by (subst os_MkdirAll.simps)
       (auto simp: os_Stat_def stat_at_phys[OF assms(1)] IsDir_def ftype_of_def is_link_def
          split: node.splits)
qed

section \<open>Resolution in general\<close>

lemma namei_cases_induct [case_names Nil Empty NotDir Dot DotDot TooLong Missing IsDir IsFile Link]:
  assumes "\<And>k cur. P k cur []"
    and "\<And>k cur cs. P k cur cs \<Longrightarrow> P k cur ([] # cs)"
    and "\<And>k cur c cs. c \<noteq> [] \<Longrightarrow> \<not> is_dir (get fs cur) \<Longrightarrow> P k cur (c # cs)"
    and "\<And>k cur cs. is_dir (get fs cur) \<Longrightarrow> P k cur cs \<Longrightarrow> P k cur (''.'' # cs)"
    and "\<And>k cur cs. is_dir (get fs cur) \<Longrightarrow> P k (butlast cur) cs \<Longrightarrow> P k cur (''..'' # cs)"
    and "\<And>k cur c cs. nodot c \<Longrightarrow> is_dir (get fs cur) \<Longrightarrow> length c > 255 \<Longrightarrow> P k cur (c # cs)"
    and "\<And>k cur c cs. named c \<Longrightarrow> is_dir (get fs cur) \<Longrightarrow> get fs (cur @ [c]) = None \<Longrightarrow>
           P k cur (c # cs)"
    and "\<And>k cur c cs es. named c \<Longrightarrow> is_dir (get fs cur) \<Longrightarrow> get fs (cur @ [c]) = Some (Dir es) \<Longrightarrow>
           P k (cur @ [c]) cs \<Longrightarrow> P k cur (c # cs)"
    and "\<And>k cur c cs d. named c \<Longrightarrow> is_dir (get fs cur) \<Longrightarrow> get fs (cur @ [c]) = Some (File d) \<Longrightarrow>
           P k cur (c # cs)"
    and "\<And>k cur c cs t. named c \<Longrightarrow> is_dir (get fs cur) \<Longrightarrow> get fs (cur @ [c]) = Some (Symlink t) \<Longrightarrow>
           (\<And>k'. k = Suc k' \<Longrightarrow> t \<noteq> [] \<Longrightarrow>
              P k' (if rooted (of_string t) then [] else cur) (elems (of_string t) @ cs)) \<Longrightarrow>
           P k cur (c # cs)"
  shows "P k cur cs"
proof -
  have "fs' = fs \<Longrightarrow> fl \<Longrightarrow> P k cur cs" for fs' and fl :: bool
proof (induction k fs' fl cur cs rule: namei.induct)
  case (1 k fs' follow cur)
  then show ?case using assms(1) by simp
next
  case (2 k fs' follow cur c cs)
  note fs = \<open>fs' = fs\<close> \<open>follow\<close>
  show ?case
  proof (cases "c = []")
    case True
    then show ?thesis using 2(1) assms(2) fs by simp
  next
    case ne: False
    show ?thesis
    proof (cases "is_dir (get fs cur)")
      case False
      then show ?thesis using assms(3) ne by simp
    next
      case d: True
      show ?thesis
      proof (cases "c = ''.''")
        case True
        then show ?thesis using 2(2) assms(4) d ne fs by simp
      next
        case nd: False
        show ?thesis
        proof (cases "c = ''..''")
          case True
          then show ?thesis using 2(3) assms(5) d ne nd fs by simp
        next
          case ndd: False
          have c0: "nodot c" using ne nd ndd by (simp add: nodot_def)
          show ?thesis
          proof (cases "length c > 255")
            case True
            then show ?thesis using assms(6)[OF c0 d] by simp
          next
            case len: False
            then have c: "named c" using c0 by (simp add: named_def)
            show ?thesis
            proof (cases "get fs (cur @ [c])")
              case None
              then show ?thesis using assms(7) c d by simp
            next
              case (Some n)
              show ?thesis
              proof (cases n)
                case (File x)
                then show ?thesis using assms(9) c d Some by simp
              next
                case (Dir es)
                then show ?thesis
                  using assms(8)[OF c d] 2(4)[OF ne _ nd ndd len _ Dir] d Some fs by simp
              next
                case (Symlink t)
                show ?thesis
                proof (rule assms(10)[OF c d])
                  show "get fs (cur @ [c]) = Some (Symlink t)" using Some Symlink by simp
                next
                  fix k' assume k: "k = Suc k'" "t \<noteq> []"
                  show "P k' (if rooted (of_string t) then [] else cur) (elems (of_string t) @ cs)"
                    using 2(5)[OF ne _ nd ndd len _ Symlink _ k(2) k(1)] d Some Symlink fs
                    by simp
                qed
              qed
            qed
          qed
        qed
      qed
    qed
  qed
qed
  then show ?thesis by blast
qed

lemma namei_follow_of_nofollow:
  "namei k fs False cur cs = Inr q \<Longrightarrow> \<not> is_link (get fs q) \<Longrightarrow> namei k fs True cur cs = Inr q"
proof (induction k cur cs rule: namei_cases_induct[where fs=fs])
  case (Link k cur c cs t)
  then show ?case by (cases k) (auto simp: named_def nodot_def split: if_splits)
qed (auto simp: named_def nodot_def split: if_splits)

lemma namei_nofollow_of_follow:
  "namei k fs True cur cs = Inr r \<Longrightarrow> get fs r \<noteq> None \<Longrightarrow>
   \<exists>q. namei k fs False cur cs = Inr q \<and> get fs q \<noteq> None"
proof (induction k cur cs rule: namei_cases_induct[where fs=fs])
  case (Link k cur c cs t)
  then show ?case by (cases k) (auto simp: named_def nodot_def split: if_splits)
qed (auto simp: named_def nodot_def split: if_splits)

lemma namei_parent_dir:
  "namei k fs fl cur cs = Inr q \<Longrightarrow> is_dir (get fs cur) \<Longrightarrow> \<not> is_dir (get fs q) \<Longrightarrow>
   q \<noteq> [] \<and> is_dir (get fs (butlast q))"
proof (induction k cur cs rule: namei_cases_induct[where fs=fs])
  case (DotDot k cur cs)
  have "is_dir (get fs (butlast cur))"
    using DotDot(1) is_dir_prefix[of fs "butlast cur" "[last cur]"] by (cases "cur = []") auto
  then show ?case using DotDot by simp
next
  case (Link k cur c cs t)
  have "is_dir (get fs [])" using Link(2) is_dir_prefix[of fs "[]" cur] by simp
  then show ?case using Link by (cases k) (auto simp: named_def nodot_def split: if_splits)
qed (auto simp: named_def nodot_def split: if_splits)

lemma namei_some_nonempty:
  "namei k fs fl cur cs = Inr q \<Longrightarrow> \<exists>c\<in>set cs. c \<noteq> [] \<Longrightarrow> \<not> is_dir (get fs q) \<Longrightarrow>
   q \<noteq> [] \<and> is_dir (get fs (butlast q))"
proof (induction cs)
  case Nil
  then show ?case by simp
next
  case (Cons c cs)
  show ?case
  proof (cases "c = []")
    case True
    then show ?thesis using Cons by simp
  next
    case False
    then have "is_dir (get fs cur)" using Cons.prems(1) by (auto split: if_splits)
    then show ?thesis using namei_parent_dir[OF Cons.prems(1) _ Cons.prems(3)] by simp
  qed
qed

lemma namei_nofollow_last:
  "namei k fs False cur (cs @ [c]) = Inr q \<Longrightarrow> named c \<Longrightarrow> q \<noteq> [] \<and> last q = c"
proof (induction k cur cs rule: namei_cases_induct[where fs=fs])
  case (Nil k cur)
  then show ?case by (auto simp: named_def nodot_def split: if_splits option.splits node.splits)
next
  case (Link k cur c' cs t)
  then show ?case by (cases k) (auto simp: named_def nodot_def split: if_splits)
qed (auto simp: named_def nodot_def split: if_splits)

text \<open>Writing a file at the place a path resolves to does not change where the path resolves.\<close>

lemma namei_put_file:
  assumes q: "q \<noteq> []" "is_dir (get fs (butlast q))" "\<not> is_dir (get fs q)" "\<not> is_link (get fs q)"
  shows "namei k fs fl cur cs = Inr q \<Longrightarrow> namei k (put q (File d) fs) fl cur cs = Inr q"
proof (induction k cur cs rule: namei_cases_induct[where fs=fs])
  case (Nil k cur)
  then show ?case by simp
next
  case (Empty k cur cs)
  then show ?case by simp
next
  case (NotDir k cur c cs)
  then show ?case by simp
next
  case (Dot k cur cs)
  have "\<not> prefix q cur"
  proof
    assume "prefix q cur"
    then obtain r where "cur = q @ r" by (auto simp: prefix_def)
    then show False using Dot(1) q(3) is_dir_prefix[of fs q r] by simp
  qed
  then have "is_dir (get (put q (File d) fs) cur)"
    using Dot(1) look_put_other[of q cur "File d" fs] by (simp add: is_dir_look)
  then show ?case using Dot by simp
next
  case (DotDot k cur cs)
  have "\<not> prefix q cur"
  proof
    assume "prefix q cur"
    then obtain r where "cur = q @ r" by (auto simp: prefix_def)
    then show False using DotDot(1) q(3) is_dir_prefix[of fs q r] by simp
  qed
  then have "is_dir (get (put q (File d) fs) cur)"
    using DotDot(1) look_put_other[of q cur "File d" fs] by (simp add: is_dir_look)
  then show ?case using DotDot by simp
next
  case (TooLong k cur c cs)
  then show ?case by (simp add: nodot_def)
next
  case (Missing k cur c cs)
  have npc: "\<not> prefix q cur"
  proof
    assume "prefix q cur"
    then obtain r where "cur = q @ r" by (auto simp: prefix_def)
    then show False using Missing(2) q(3) is_dir_prefix[of fs q r] by simp
  qed
  then have dc: "is_dir (get (put q (File d) fs) cur)"
    using Missing(2) look_put_other[of q cur "File d" fs] by (simp add: is_dir_look)
  have res: "cs = []" "q = cur @ [c]" using Missing by (auto simp: named_def nodot_def split: if_splits)
  have "get (put q (File d) fs) (q @ []) = get (File d) []"
    using q by (intro get_put_under) simp
  then show ?case using Missing(1) dc res by (simp add: named_def nodot_def)
next
  case (IsDir k cur c cs es)
  have npc: "\<not> prefix q (cur @ [c])"
  proof
    assume "prefix q (cur @ [c])"
    then obtain r where "cur @ [c] = q @ r" by (auto simp: prefix_def)
    then show False using IsDir(3) q(3) is_dir_prefix[of fs q r] by simp
  qed
  then have "\<not> prefix q cur" by (metis prefix_order.dual_order.trans prefix_snoc)
  then have dc: "is_dir (get (put q (File d) fs) cur)"
    using IsDir(2) look_put_other[of q cur "File d" fs] by (simp add: is_dir_look)
  have "look (put q (File d) fs) (cur @ [c]) = Some SDir"
    using npc IsDir(3) look_put_other[of q "cur @ [c]" "File d" fs] by (simp add: look_def)
  then obtain es' where "get (put q (File d) fs) (cur @ [c]) = Some (Dir es')"
    by (auto simp: look_def)
  then show ?case using IsDir dc by (simp add: named_def nodot_def)
next
  case (IsFile k cur c cs d')
  have npc: "\<not> prefix q cur"
  proof
    assume "prefix q cur"
    then obtain r where "cur = q @ r" by (auto simp: prefix_def)
    then show False using IsFile(2) q(3) is_dir_prefix[of fs q r] by simp
  qed
  then have dc: "is_dir (get (put q (File d) fs) cur)"
    using IsFile(2) look_put_other[of q cur "File d" fs] by (simp add: is_dir_look)
  have res: "cs = []" "q = cur @ [c]" using IsFile by (auto simp: named_def nodot_def split: if_splits)
  have "get (put q (File d) fs) (q @ []) = get (File d) []"
    using q by (intro get_put_under) simp
  then show ?case using IsFile(1) dc res by (simp add: named_def nodot_def)
next
  case (Link k cur c cs t)
  have npc: "\<not> prefix q (cur @ [c])"
  proof
    assume "prefix q (cur @ [c])"
    then obtain r where r: "cur @ [c] = q @ r" by (auto simp: prefix_def)
    show False
    proof (cases "r = []")
      case True
      then show ?thesis using r Link(3) q(4) by simp
    next
      case False
      then have "look fs (q @ r) = None" using q(3) by (intro look_child_of_nondir) (simp_all add: is_dir_look)
      then show ?thesis using r Link(3) by (simp add: look_def)
    qed
  qed
  then have "\<not> prefix q cur" by (metis prefix_order.dual_order.trans prefix_snoc)
  then have dc: "is_dir (get (put q (File d) fs) cur)"
    using Link(2) look_put_other[of q cur "File d" fs] by (simp add: is_dir_look)
  have "look (put q (File d) fs) (cur @ [c]) = Some (SLink t)"
    using npc Link(3) look_put_other[of q "cur @ [c]" "File d" fs] by (simp add: look_def)
  then have g: "get (put q (File d) fs) (cur @ [c]) = Some (Symlink t)"
    by (auto simp: look_def)
  show ?case using Link(1,4,5) Link(3) dc g
    by (cases k) (auto simp: named_def nodot_def split: if_splits)
qed

lemma read_after_write:
  assumes "os_WriteFile E p d fs = (fs', None)" "\<exists>c\<in>set (elems p). c \<noteq> []"
  shows "os_ReadFile E fs' p = Inr d"
proof -
  obtain q where q: "resolve E fs True p = Inr q" "\<not> is_dir (get fs q)" "\<not> is_link (get fs q)"
      "fs' = put q (File d) fs"
    using assms(1) by (auto simp: os_WriteFile_def split: sum.splits option.splits node.splits)
  have ne: "p \<noteq> PN False [[]]" using assms(2) by auto
  have pre: "\<not> (\<exists>c\<in>set (elems p). CHR 0x00 \<in> set c)" "\<not> length (to_string p) > 4095"
    "\<not> (\<not> rooted p \<and> \<not> is_dir (get fs (Getwd E)))"
    using q(1) ne by (auto simp: resolve_def split: if_splits)
  have n: "namei 40 fs True (if rooted p then [] else Getwd E) (elems p) = Inr q"
    using q(1) ne pre by (simp add: resolve_def split: if_splits)
  have par: "q \<noteq> [] \<and> is_dir (get fs (butlast q))"
    using namei_some_nonempty[OF n assms(2) q(2)] .
  have n': "namei 40 fs' True (if rooted p then [] else Getwd E) (elems p) = Inr q"
    unfolding q(4) using par q(2,3) n by (intro namei_put_file) simp_all
  have cwd: "\<not> (\<not> rooted p \<and> \<not> is_dir (get fs' (Getwd E)))"
  proof (cases "rooted p")
    case True
    then show ?thesis by simp
  next
    case False
    then have d: "is_dir (get fs (Getwd E))" using pre(3) by simp
    have "\<not> prefix q (Getwd E)"
    proof
      assume "prefix q (Getwd E)"
      then obtain r where "Getwd E = q @ r" by (auto simp: prefix_def)
      then show False using d q(2) is_dir_prefix[of fs q r] by simp
    qed
    then show ?thesis
      unfolding q(4) using d look_put_other[of q "Getwd E" "File d" fs] by (simp add: is_dir_look)
  qed
  have "get fs' (q @ []) = get (File d) []"
    unfolding q(4) using par by (intro get_put_under) simp
  then show ?thesis using ne pre(1,2) cwd n' by (simp add: os_ReadFile_def resolve_def)
qed

section \<open>Joined paths and missing parents\<close>

lemma elems_Join_nodot:
  "nodot c \<Longrightarrow> elems (Join p (PN b [c])) = elems (Clean p) @ [c]"
  by (simp add: Join_def Clean_def clean_elems_append nodot_def)

lemma rooted_Join [simp]: "rooted (Join p q) = rooted p"
  by (simp add: Join_def Clean_def)

lemma rooted_Clean [simp]: "rooted (Clean p) = rooted p"
  by (simp add: Clean_def)

lemma plain_nodot: "plain c \<Longrightarrow> nodot c"
  by (simp add: plain_def nodot_def)

lemma Join_Clean_left: "Join (Clean p) q = Join p q"
proof -
  have "clean_elems (rooted p) [] (clean_elems (rooted p) [] (elems p) @ elems q)
      = clean_elems (rooted p) [] (elems p @ elems q)"
    by (simp add: clean_elems_append[of _ _ "clean_elems (rooted p) [] (elems p)"]
        clean_elems_append[of _ _ "elems p"]
        clean_elems_idem[OF clean_elems_cleaned[of "rooted p" "[]" "elems p"]] cleaned_Nil)
  then show ?thesis by (simp add: Join_def Clean_def)
qed

lemma Clean_Join [simp]: "Clean (Join p q) = Join p q"
  by (simp add: Join_def Clean_idem)

lemma elems_Join_str:
  "plain c \<Longrightarrow> elems (Join (Join p q) (of_string c)) = elems (Join p q) @ [c]"
  using elems_Join_nodot[of c "Join p q" False] by (simp add: of_string_plain plain_nodot)

text \<open>A path below something that does not exist does not exist.\<close>

lemma missing_simps [simp]:
  "missing fs (Inl e) = (e = ENOENT)" "missing fs (Inr q) = (get fs q = None)"
  by (simp_all add: missing_def)





lemma elems_AccountsDir: "elems (AccountsDir E) = elems (DataDir E) @ [''accounts'']"
  unfolding AccountsDir_def DataDir_def
  by (rule elems_Join_str) (simp add: plain_def)


section \<open>Evaluating the fixed locations\<close>



lemma ex_codecs:
  "state_Unmarshal ex_env = ex_state_Unmarshal"
  "state_Marshal ex_env = ex_state_Marshal"
  "config_Unmarshal ex_env = ex_config_Unmarshal"
  "config_Marshal ex_env = ex_config_Marshal"
  "account_Unmarshal ex_env = ex_account_Unmarshal"
  "account_Marshal ex_env = ex_account_Marshal"
  "Getwd ex_env = []"
  "Now ex_env = 7"
  by (simp_all add: ex_env_def)

section \<open>Reading the two singleton files\<close>

text \<open>
  C3, as the code has it. A state file that cannot be read (absent, or any other read
  error) or cannot be decoded gives the empty state and no error, so \<open>Current\<close> is the
  empty string. An absent sharing configuration gives the disabled default and no error.
  A sharing configuration that cannot be decoded is different: \<open>LoadConfig\<close> returns the
  decoding error and leaves the manager as it was.
\<close>

theorem C3_singleton_reads:
  "(\<forall>e. os_ReadFile E fs (StateFile E) = Inl e \<longrightarrow>
       loadState E fs = Inr \<lparr>current = [], previous = []\<rparr> \<and> Current E fs = Inr [])
 \<and> (\<forall>d. os_ReadFile E fs (StateFile E) = Inr d \<and> state_Unmarshal E d = None \<longrightarrow>
       loadState E fs = Inr \<lparr>current = [], previous = []\<rparr> \<and> Current E fs = Inr [])
 \<and> (os_ReadFile E fs (SharingConfigFile E) = Inl ENOENT \<longrightarrow>
       LoadConfig E m fs =
         (m\<lparr>config := \<lparr>mode = ModeDisabled, include_settings = False, groups = Map.empty\<rparr>\<rparr>, None))
 \<and> (\<forall>d. os_ReadFile E fs (SharingConfigFile E) = Inr d \<and> config_Unmarshal E d = None \<longrightarrow>
       LoadConfig E m fs = (m, Some Json))"
  by (simp add: loadState_def Current_def LoadConfig_def IsNotExist_def)

lemma ex_fs_fresh_reads:
  "os_ReadFile ex_env ex_fs_fresh (StateFile ex_env) = Inl ENOENT"
  "os_ReadFile ex_env ex_fs_fresh (SharingConfigFile ex_env) = Inl ENOENT"
  by code_simp+

lemma ex_fs_corrupt_reads:
  "os_ReadFile ex_env ex_fs_corrupt (StateFile ex_env) = Inr ''{''"
  "os_ReadFile ex_env ex_fs_corrupt (SharingConfigFile ex_env) = Inr ''{''"
  "state_Unmarshal ex_env ''{'' = None"
  "config_Unmarshal ex_env ''{'' = None"
  by code_simp+

theorem C3_singleton_reads_witness:
  "os_ReadFile ex_env ex_fs_fresh (StateFile ex_env) = Inl ENOENT
 \<and> Current ex_env ex_fs_fresh = Inr []
 \<and> os_ReadFile ex_env ex_fs_fresh (SharingConfigFile ex_env) = Inl ENOENT
 \<and> LoadConfig ex_env NewManager ex_fs_fresh = (NewManager, None)
 \<and> os_ReadFile ex_env ex_fs_corrupt (StateFile ex_env) = Inr ''{''
 \<and> state_Unmarshal ex_env ''{'' = None
 \<and> Current ex_env ex_fs_corrupt = Inr []
 \<and> os_ReadFile ex_env ex_fs_corrupt (SharingConfigFile ex_env) = Inr ''{''
 \<and> config_Unmarshal ex_env ''{'' = None
 \<and> LoadConfig ex_env NewManager ex_fs_corrupt = (NewManager, Some Json)"
  using C3_singleton_reads [of ex_env ex_fs_fresh NewManager]
    C3_singleton_reads [of ex_env ex_fs_corrupt NewManager]
  by (simp add: ex_fs_fresh_reads ex_fs_corrupt_reads NewManager_def)

text \<open>
  C3 as the specification words it fails on a corrupt sharing configuration: the file is
  there, the decoder rejects it, and \<open>LoadConfig\<close> reports the error.
\<close>

theorem C3_corrupt_config_counterexample:
  "os_ReadFile ex_env ex_fs_corrupt (SharingConfigFile ex_env) = Inr ''{''
 \<and> config_Unmarshal ex_env ''{'' = None
 \<and> snd (LoadConfig ex_env NewManager ex_fs_corrupt) = Some Json"
  by (simp add: LoadConfig_def ex_fs_corrupt_reads)

section \<open>Get and List\<close>




lemma ex_accounts_facts:
  "os_ReadFile ex_env ex_fs_accounts (Join (AccountPath ex_env ''old'') (of_string ''.account.json''))
     = Inl ENOENT"
  "os_Stat ex_env ex_fs_accounts (AccountPath ex_env ''old'') = Inr (FileInfo Directory 3)"
  "length (to_string (Join (AccountPath ex_env ''gone'') (of_string ''.account.json''))) \<le> 4095"
  "os_Stat ex_env ex_fs_accounts (AccountPath ex_env ''gone'') = Inl ENOENT"
  "os_ReadFile ex_env ex_fs_accounts (Join (AccountPath ex_env ''bad'') (of_string ''.account.json''))
     = Inr ''{''"
  "account_Unmarshal ex_env ''{'' = None"
  "EnsureDirs ex_env ex_fs_accounts = (ex_fs_accounts, None)"
  "os_ReadDir ex_env ex_fs_accounts (AccountsDir ex_env)
     = Inr [(''bad'', Directory), (''ok'', Directory), (''old'', Directory)]"
  "os_Lstat ex_env ex_fs_accounts (AccountsDir ex_env) = Inr (FileInfo Directory 3)"
  "resolve ex_env ex_fs_accounts False (AccountsDir ex_env) = Inr [''h'', ''codex-data'', ''accounts'']"
  "Get ex_env ''ok'' ex_fs_accounts = Inr \<lparr>Name = ''ok'', Email = [], CreatedAt = 0, UpdatedAt = 0\<rparr>"
  by code_simp+














section \<open>Delete with the empty name\<close>

text \<open>
  C9, as the code has it. No operation checks a profile name. The path of the empty name
  is the accounts root itself. Wherever that root exists, \<open>Delete\<close> does not answer
  \<open>NotFound\<close>: it removes the node that the accounts-root path names, with everything
  below it, and nothing else. Where the root is a directory, as \<open>EnsureDirs\<close> makes it,
  that is every snapshot. Where the root is a symbolic link to a directory, it is the link
  only, and the directory with its snapshots stays.
\<close>

lemma elems_AccountsDir_last: "\<exists>xs. elems (AccountsDir E) = xs @ [''accounts'']"
  using elems_AccountsDir by blast

lemma Delete_empty_name:
  assumes st: "os_Stat E fs (AccountsDir E) = Inr info"
  shows "\<exists>q. resolve E fs False (AccountsDir E) = Inr q \<and> q \<noteq> [] \<and> get fs q \<noteq> None
            \<and> Delete E [] fs = (del q fs, None)"
proof -
  obtain xs where xs: "elems (AccountsDir E) = xs @ [''accounts'']"
    using elems_AccountsDir_last by blast
  let ?cur = "if rooted (AccountsDir E) then [] else Getwd E"
  obtain r where r: "namei 40 fs True ?cur (xs @ [''accounts'']) = Inr r" "get fs r \<noteq> None"
    and pre: "resolve E fs False (AccountsDir E) = namei 40 fs False ?cur (xs @ [''accounts''])"
    using st xs
    by (auto simp: os_Stat_def stat_at_def resolve_def split: if_splits sum.splits option.splits)
  obtain q where q: "namei 40 fs False ?cur (xs @ [''accounts'']) = Inr q" "get fs q \<noteq> None"
    using namei_nofollow_of_follow[OF r] by blast
  have qne: "q \<noteq> []" using namei_nofollow_last[OF q(1)] by (simp add: named_def nodot_def)
  have "Delete E [] fs = (del q fs, None)"
    using st q(1) pre qne by (simp add: Delete_def AccountPath_empty os_RemoveAll_def)
  then show ?thesis using q pre qne by auto
qed

theorem C9_Delete_empty_name:
  "AccountPath E [] = AccountsDir E
 \<and> (\<forall>info. os_Stat E fs (AccountsDir E) = Inr info \<longrightarrow>
       (\<forall>n. snd (Delete E [] fs) \<noteq> Some (NotFound n)))
 \<and> (\<forall>info. os_Stat E fs (AccountsDir E) = Inr info \<longrightarrow>
       (\<exists>q. resolve E fs False (AccountsDir E) = Inr q \<and> q \<noteq> [] \<and> get fs q \<noteq> None
            \<and> Delete E [] fs = (del q fs, None)
            \<and> (\<forall>r. get (del q fs) (q @ r) = None)
            \<and> (\<forall>p. \<not> prefix q p \<longrightarrow> look (del q fs) p = look fs p)))
 \<and> (\<forall>info. os_Lstat E fs (AccountsDir E) = Inr info \<and> IsDir info \<longrightarrow>
       (\<exists>q. resolve E fs False (AccountsDir E) = Inr q \<and> is_dir (get fs q)
            \<and> Delete E [] fs = (del q fs, None)
            \<and> (\<forall>r. get (del q fs) (q @ r) = None)))"
proof (intro conjI allI impI)
  show "AccountPath E [] = AccountsDir E" by (rule AccountPath_empty)
next
  fix info n
  assume "os_Stat E fs (AccountsDir E) = Inr info"
  then show "snd (Delete E [] fs) \<noteq> Some (NotFound n)"
    by (auto simp: Delete_def AccountPath_empty split: prod.splits option.splits)
next
  fix info
  assume "os_Stat E fs (AccountsDir E) = Inr info"
  then obtain q where q: "resolve E fs False (AccountsDir E) = Inr q" "q \<noteq> []" "get fs q \<noteq> None"
      "Delete E [] fs = (del q fs, None)"
    using Delete_empty_name by blast
  have "\<forall>r. get (del q fs) (q @ r) = None" using q(2) by (simp add: get_del_under)
  moreover have "\<forall>p. \<not> prefix q p \<longrightarrow> look (del q fs) p = look fs p"
    by (simp add: look_del_other)
  ultimately show "\<exists>q. resolve E fs False (AccountsDir E) = Inr q \<and> q \<noteq> [] \<and> get fs q \<noteq> None
            \<and> Delete E [] fs = (del q fs, None)
            \<and> (\<forall>r. get (del q fs) (q @ r) = None)
            \<and> (\<forall>p. \<not> prefix q p \<longrightarrow> look (del q fs) p = look fs p)"
    using q by blast
next
  fix info
  assume a: "os_Lstat E fs (AccountsDir E) = Inr info \<and> IsDir info"
  obtain q n where q: "resolve E fs False (AccountsDir E) = Inr q" "get fs q = Some n"
      "ftype_of n = Directory"
    using a by (auto simp: os_Lstat_def stat_at_def IsDir_def split: sum.splits option.splits)
  have d: "is_dir (get fs q)" using q(2,3) by (cases n) (simp_all add: ftype_of_def)
  have nl: "\<not> is_link (get fs q)" using q(2,3) by (cases n) (simp_all add: ftype_of_def)
  obtain xs where xs: "elems (AccountsDir E) = xs @ [''accounts'']"
    using elems_AccountsDir_last by blast
  let ?cur = "if rooted (AccountsDir E) then [] else Getwd E"
  have pre: "resolve E fs True (AccountsDir E) = namei 40 fs True ?cur (xs @ [''accounts''])"
      "namei 40 fs False ?cur (xs @ [''accounts'']) = Inr q"
    using q(1) xs by (auto simp: resolve_def split: if_splits)
  have "namei 40 fs True ?cur (xs @ [''accounts'']) = Inr q"
    using pre(2) nl by (rule namei_follow_of_nofollow)
  then have "os_Stat E fs (AccountsDir E) = Inr (FileInfo Directory (mtime E fs q))"
    using pre(1) q(2,3) by (simp add: os_Stat_def stat_at_def)
  then obtain q' where q': "resolve E fs False (AccountsDir E) = Inr q'" "q' \<noteq> []"
      "Delete E [] fs = (del q' fs, None)"
    using Delete_empty_name by blast
  then have "q' = q" using q(1) by simp
  then show "\<exists>q. resolve E fs False (AccountsDir E) = Inr q \<and> is_dir (get fs q)
            \<and> Delete E [] fs = (del q fs, None)
            \<and> (\<forall>r. get (del q fs) (q @ r) = None)"
    using q' q(1) d by (auto simp: get_del_under)
qed

lemma ex_linked_facts:
  "os_Stat ex_env ex_fs_linked (AccountsDir ex_env) = Inr (FileInfo Directory 3)"
  "os_Lstat ex_env ex_fs_linked (AccountsDir ex_env) = Inr (FileInfo SymbolicLink 3)"
  "resolve ex_env ex_fs_linked False (AccountsDir ex_env) = Inr [''h'', ''codex-data'', ''accounts'']"
  "snd (EnsureDirs ex_env ex_fs_linked) = None"
  "snd (Delete ex_env [] ex_fs_linked) = None"
  "fst (Delete ex_env [] ex_fs_linked) =
     Dir [(''h'', Dir
            [(''.codex'', Dir [(''marker.txt'', File ''live'')]),
             (''codex-data'', Dir []),
             (''.codex-switch'', Dir [])]),
          (''real'', Dir [(''p1'', Dir [(''marker.txt'', File ''one'')])])]"
  "os_Stat ex_env ex_fs_linked (AccountPath ex_env ''p1'') = Inr (FileInfo Directory 3)"
  by code_simp+

theorem C9_Delete_empty_name_witness:
  "os_Lstat ex_env ex_fs_accounts (AccountsDir ex_env) = Inr (FileInfo Directory 3)
 \<and> Delete ex_env [] ex_fs_accounts = (del [''h'', ''codex-data'', ''accounts''] ex_fs_accounts, None)
 \<and> get (del [''h'', ''codex-data'', ''accounts''] ex_fs_accounts) [''h'', ''codex-data'', ''accounts'', ''ok''] = None
 \<and> get ex_fs_accounts [''h'', ''codex-data'', ''accounts'', ''ok'', ''marker.txt''] = Some (File ''ok'')
 \<and> os_Stat ex_env ex_fs_linked (AccountsDir ex_env) = Inr (FileInfo Directory 3)
 \<and> Delete ex_env [] ex_fs_linked = (del [''h'', ''codex-data'', ''accounts''] ex_fs_linked, None)
 \<and> look (del [''h'', ''codex-data'', ''accounts''] ex_fs_linked) [''real'', ''p1'', ''marker.txt'']
     = look ex_fs_linked [''real'', ''p1'', ''marker.txt'']"
proof -
  have "IsDir (FileInfo Directory 3)" by (simp add: IsDir_def)
  then obtain q where q: "resolve ex_env ex_fs_accounts False (AccountsDir ex_env) = Inr q"
    "Delete ex_env [] ex_fs_accounts = (del q ex_fs_accounts, None)"
    "\<forall>r. get (del q ex_fs_accounts) (q @ r) = None"
    using C9_Delete_empty_name[of ex_env ex_fs_accounts] ex_accounts_facts(9) by blast
  have qq: "q = [''h'', ''codex-data'', ''accounts'']" using q(1) ex_accounts_facts(10) by simp
  have a: "get (del q ex_fs_accounts) (q @ [''ok'']) = None" using q(3) by blast
  have b: "get ex_fs_accounts [''h'', ''codex-data'', ''accounts'', ''ok'', ''marker.txt''] = Some (File ''ok'')"
    by (simp add: ex_fs_accounts_def)
  obtain q' where q': "resolve ex_env ex_fs_linked False (AccountsDir ex_env) = Inr q'"
    "Delete ex_env [] ex_fs_linked = (del q' ex_fs_linked, None)"
    "\<forall>p. \<not> prefix q' p \<longrightarrow> look (del q' ex_fs_linked) p = look ex_fs_linked p"
    using C9_Delete_empty_name[of ex_env ex_fs_linked] ex_linked_facts(1) by blast
  have qq': "q' = [''h'', ''codex-data'', ''accounts'']" using q'(1) ex_linked_facts(3) by simp
  have c: "look (del q' ex_fs_linked) [''real'', ''p1'', ''marker.txt'']
      = look ex_fs_linked [''real'', ''p1'', ''marker.txt'']"
    using q'(3) qq' by simp
  show ?thesis using q(2) qq a b q'(2) qq' c ex_accounts_facts(9) ex_linked_facts(1) by simp
qed

text \<open>
  C9 as the specification words it fails where the accounts root is a symbolic link:
  \<open>EnsureDirs\<close> accepts the layout, the root exists, \<open>Delete\<close> of the empty name
  succeeds, and the snapshot is still where the link pointed.
\<close>

theorem C9_linked_root_counterexample:
  "snd (EnsureDirs ex_env ex_fs_linked) = None
 \<and> os_Stat ex_env ex_fs_linked (AccountsDir ex_env) = Inr (FileInfo Directory 3)
 \<and> os_Stat ex_env ex_fs_linked (AccountPath ex_env ''p1'') = Inr (FileInfo Directory 3)
 \<and> snd (Delete ex_env [] ex_fs_linked) = None
 \<and> get (fst (Delete ex_env [] ex_fs_linked)) [''real'', ''p1'', ''marker.txt''] = Some (File ''one'')"
  by (simp add: ex_linked_facts)

section \<open>Activate and the sharing links\<close>




end
